theory Spec2Isabelle
  imports Complex_Main "HOL-Library.State_Monad"
begin

section \<open>Python values\<close>

text \<open>
  A Python \<open>float\<close> is an IEEE double: a finite value, one of the two infinities, or
  NaN. Every finite double is a real number and the comparison of two doubles is exact,
  so the finite values are embedded in \<open>real\<close>; the theorems below, stated for all
  reals, hold in particular for the doubles.
\<close>

datatype pyfloat = Fin real | PosInf | NegInf | NaN

text \<open>Python's \<open>x <= y\<close> on floats: false as soon as one side is NaN.\<close>

fun float_le :: "pyfloat \<Rightarrow> pyfloat \<Rightarrow> bool" where
  "float_le NaN y = False"
| "float_le x NaN = False"
| "float_le NegInf y = True"
| "float_le x PosInf = True"
| "float_le (Fin x) (Fin y) = (x \<le> y)"
| "float_le (Fin x) NegInf = False"
| "float_le PosInf (Fin y) = False"
| "float_le PosInf NegInf = False"

text \<open>Python's \<open>x > y\<close> on floats, again false on NaN.\<close>

fun float_gt :: "pyfloat \<Rightarrow> pyfloat \<Rightarrow> bool" where
  "float_gt NaN y = False"
| "float_gt x NaN = False"
| "float_gt NegInf y = False"
| "float_gt x PosInf = False"
| "float_gt (Fin x) (Fin y) = (x > y)"
| "float_gt (Fin x) NegInf = True"
| "float_gt PosInf (Fin y) = True"
| "float_gt PosInf NegInf = True"

text \<open>
  The values that \<open>json.loads\<close> produces: \<open>None\<close>, \<open>bool\<close>, \<open>int\<close>, \<open>float\<close>, \<open>str\<close>,
  \<open>list\<close> and \<open>dict\<close> with \<open>str\<close> keys. A dict is an association list read with
  \<open>map_of\<close>.
\<close>

datatype pyval =
  PyNone | PyBool bool | PyInt int | PyFloat pyfloat | PyStr string
| PyList "pyval list" | PyDict "(string \<times> pyval) list"

text \<open>The exceptions that the operations below can raise.\<close>

datatype py_error = KeyError | TypeError | AttributeError

text \<open>
  The number a value stands for in a comparison with a float: \<open>bool\<close> is a subclass
  of \<open>int\<close>, and an \<open>int\<close> is compared with a float by its exact value. No other
  value is a number.
\<close>

fun number_of :: "pyval \<Rightarrow> pyfloat option" where
  "number_of (PyBool b) = Some (Fin (if b then 1 else 0))"
| "number_of (PyInt i) = Some (Fin (of_int i))"
| "number_of (PyFloat f) = Some f"
| "number_of v = None"

text \<open>
  \<open>v <= time\<close> and \<open>time <= v\<close> for a float \<open>time\<close>: a value that is not a number raises
  \<open>TypeError\<close> (\<open>'<=' not supported between instances of ...\<close>).
\<close>

definition le_time :: "pyval \<Rightarrow> pyfloat \<Rightarrow> py_error + bool" where
  "le_time v time = (case number_of v of None \<Rightarrow> Inl TypeError | Some x \<Rightarrow> Inr (float_le x time))"

definition time_le :: "pyfloat \<Rightarrow> pyval \<Rightarrow> py_error + bool" where
  "time_le time v = (case number_of v of None \<Rightarrow> Inl TypeError | Some x \<Rightarrow> Inr (float_le time x))"

text \<open>
  The chained comparison \<open>a <= time <= b\<close>: \<open>time <= b\<close> is evaluated only when
  \<open>a <= time\<close> is true.
\<close>

definition chained_le :: "pyval \<Rightarrow> pyfloat \<Rightarrow> pyval \<Rightarrow> py_error + bool" where
  "chained_le a time b =
     (case le_time a time of
        Inl e \<Rightarrow> Inl e
      | Inr False \<Rightarrow> Inr False
      | Inr True \<Rightarrow> time_le time b)"

text \<open>
  \<open>obj[key]\<close> with a \<open>str\<close> key: a dict looks the key up and raises \<open>KeyError\<close> when it
  is missing; every other JSON value raises \<open>TypeError\<close> (not subscriptable, or indices
  must be integers).
\<close>

fun subscript :: "pyval \<Rightarrow> string \<Rightarrow> py_error + pyval" where
  "subscript (PyDict d) key = (case map_of d key of None \<Rightarrow> Inl KeyError | Some v \<Rightarrow> Inr v)"
| "subscript obj key = Inl TypeError"

text \<open>
  \<open>obj.get(key, default)\<close>: only a dict has the method; a key that is present gives its
  value, also when that value is \<open>None\<close>.
\<close>

fun dict_get :: "pyval \<Rightarrow> string \<Rightarrow> pyval \<Rightarrow> py_error + pyval" where
  "dict_get (PyDict d) key dflt = Inr (case map_of d key of None \<Rightarrow> dflt | Some v \<Rightarrow> v)"
| "dict_get obj key dflt = Inl AttributeError"

text \<open>
  The items that \<open>for x in obj\<close> visits: the elements of a list, the characters of a
  str, the keys of a dict; the other JSON values are not iterable. (A str is held as its
  bytes, so a character outside ASCII is visited as several items; the loader subscripts
  every item or calls \<open>get\<close> on it, and a str item raises there whatever it holds.)
\<close>

fun iterate :: "pyval \<Rightarrow> py_error + pyval list" where
  "iterate (PyList xs) = Inr xs"
| "iterate (PyStr s) = Inr (map (\<lambda>c. PyStr [c]) s)"
| "iterate (PyDict d) = Inr (map (\<lambda>kv. PyStr (fst kv)) d)"
| "iterate obj = Inl TypeError"

section \<open>The domain model (gls/domain/models.py)\<close>

datatype Language =
  ENGLISH | MANDARIN_SIMPLIFIED | MANDARIN_TRADITIONAL | CZECH | SPANISH | RUSSIAN
| PORTUGUESE | FRENCH | GERMAN | KOREAN | JAPANESE

record TalkId =
  "value" :: string

text \<open>
  The dataclasses \<open>WordAlignment\<close>, \<open>SegmentAlignment\<close> and \<open>Alignment\<close>. Python does
  not enforce the field annotations, and the JSON loader stores decoded values as they
  are, so the records are generic in the type \<open>'s\<close> of the fields annotated \<open>str\<close> and
  the type \<open>'f\<close> of the fields annotated \<open>float\<close>. The query methods are modelled at the
  annotated types, \<open>'f = pyfloat\<close>.
\<close>

record ('s, 'f) WordAlignment =
  word :: 's
  start_time :: 'f
  end_time :: 'f
  confidence :: 'f

record ('s, 'f) SegmentAlignment =
  segment_id :: 's
  "text" :: 's
  start_time :: 'f
  end_time :: 'f
  words :: "('s, 'f) WordAlignment list"

record ('s, 'f) Alignment =
  talk_id :: TalkId
  language :: Language
  segments :: "('s, 'f) SegmentAlignment list"

text \<open>
  The loop of \<open>find_segment_at_time\<close>: \<open>for segment in self.segments\<close>, returning the
  first segment with \<open>segment.start_time <= time <= segment.end_time\<close> (a chained
  comparison, that is the conjunction of the two), and \<open>None\<close> after the loop.
\<close>

fun find_segment_loop ::
  "('s, pyfloat) SegmentAlignment list \<Rightarrow> pyfloat \<Rightarrow> ('s, pyfloat) SegmentAlignment option" where
  "find_segment_loop [] time = None"
| "find_segment_loop (segment # rest) time =
     (if float_le (SegmentAlignment.start_time segment) time
         \<and> float_le time (SegmentAlignment.end_time segment)
      then Some segment
      else find_segment_loop rest time)"

definition find_segment_at_time ::
  "('s, pyfloat) Alignment \<Rightarrow> pyfloat \<Rightarrow> ('s, pyfloat) SegmentAlignment option" where
  "find_segment_at_time self time = find_segment_loop (segments self) time"

text \<open>The loop of \<open>find_word_at_time\<close> over \<open>segment.words\<close>.\<close>

fun find_word_loop ::
  "('s, pyfloat) WordAlignment list \<Rightarrow> pyfloat \<Rightarrow> ('s, pyfloat) WordAlignment option" where
  "find_word_loop [] time = None"
| "find_word_loop (w # rest) time =
     (if float_le (WordAlignment.start_time w) time
         \<and> float_le time (WordAlignment.end_time w)
      then Some w
      else find_word_loop rest time)"

text \<open>
  \<open>find_word_at_time\<close>: \<open>if not segment: return None\<close> tests for \<open>None\<close> only, since a
  dataclass instance defines neither \<open>__bool__\<close> nor \<open>__len__\<close> and is always true.
\<close>

definition find_word_at_time ::
  "('s, pyfloat) Alignment \<Rightarrow> pyfloat \<Rightarrow> ('s, pyfloat) WordAlignment option" where
  "find_word_at_time self time =
     (case find_segment_at_time self time of
        None \<Rightarrow> None
      | Some segment \<Rightarrow> find_word_loop (words segment) time)"

text \<open>
  The loop of \<open>get_segment_index_at_time\<close>: \<open>for i, segment in enumerate(self.segments)\<close>,
  with the running index \<open>i\<close> of \<open>enumerate\<close> as an argument.
\<close>

fun segment_index_loop ::
  "nat \<Rightarrow> ('s, pyfloat) SegmentAlignment list \<Rightarrow> pyfloat \<Rightarrow> nat option" where
  "segment_index_loop i [] time = None"
| "segment_index_loop i (segment # rest) time =
     (if float_le (SegmentAlignment.start_time segment) time
         \<and> float_le time (SegmentAlignment.end_time segment)
      then Some i
      else segment_index_loop (Suc i) rest time)"

definition get_segment_index_at_time :: "('s, pyfloat) Alignment \<Rightarrow> pyfloat \<Rightarrow> nat option" where
  "get_segment_index_at_time self time = segment_index_loop 0 (segments self) time"

subsection \<open>The methods as programs on the receiver\<close>

text \<open>
  The three method bodies once more, statement by statement, as computations in the
  state monad whose state is the receiver \<open>self\<close>: \<open>State_Monad.get\<close> is the read of
  \<open>self\<close> (for \<open>self.segments\<close>), \<open>State_Monad.return\<close> is \<open>return\<close>, and an assignment
  to \<open>self\<close> or to one of its parts would be a \<open>State_Monad.set\<close>. Running a body on a
  receiver gives the value returned and the receiver after the call.
\<close>

fun find_segment_loop_st ::
  "('s, pyfloat) SegmentAlignment list \<Rightarrow> pyfloat
   \<Rightarrow> (('s, pyfloat) Alignment, ('s, pyfloat) SegmentAlignment option) state" where
  "find_segment_loop_st [] time = State_Monad.return None"
| "find_segment_loop_st (segment # rest) time =
     (if float_le (SegmentAlignment.start_time segment) time
         \<and> float_le time (SegmentAlignment.end_time segment)
      then State_Monad.return (Some segment)
      else find_segment_loop_st rest time)"

definition find_segment_at_time_st ::
  "pyfloat \<Rightarrow> (('s, pyfloat) Alignment, ('s, pyfloat) SegmentAlignment option) state" where
  "find_segment_at_time_st time =
     State_Monad.bind State_Monad.get (\<lambda>self. find_segment_loop_st (segments self) time)"

fun find_word_loop_st ::
  "('s, pyfloat) WordAlignment list \<Rightarrow> pyfloat
   \<Rightarrow> (('s, pyfloat) Alignment, ('s, pyfloat) WordAlignment option) state" where
  "find_word_loop_st [] time = State_Monad.return None"
| "find_word_loop_st (w # rest) time =
     (if float_le (WordAlignment.start_time w) time
         \<and> float_le time (WordAlignment.end_time w)
      then State_Monad.return (Some w)
      else find_word_loop_st rest time)"

definition find_word_at_time_st ::
  "pyfloat \<Rightarrow> (('s, pyfloat) Alignment, ('s, pyfloat) WordAlignment option) state" where
  "find_word_at_time_st time =
     State_Monad.bind (find_segment_at_time_st time)
       (\<lambda>segment. case segment of
                     None \<Rightarrow> State_Monad.return None
                   | Some seg \<Rightarrow> find_word_loop_st (words seg) time)"

fun segment_index_loop_st ::
  "nat \<Rightarrow> ('s, pyfloat) SegmentAlignment list \<Rightarrow> pyfloat
   \<Rightarrow> (('s, pyfloat) Alignment, nat option) state" where
  "segment_index_loop_st i [] time = State_Monad.return None"
| "segment_index_loop_st i (segment # rest) time =
     (if float_le (SegmentAlignment.start_time segment) time
         \<and> float_le time (SegmentAlignment.end_time segment)
      then State_Monad.return (Some i)
      else segment_index_loop_st (Suc i) rest time)"

definition get_segment_index_at_time_st ::
  "pyfloat \<Rightarrow> (('s, pyfloat) Alignment, nat option) state" where
  "get_segment_index_at_time_st time =
     State_Monad.bind State_Monad.get (\<lambda>self. segment_index_loop_st 0 (segments self) time)"

subsection \<open>The methods on unchecked field values\<close>

text \<open>
  The same three methods on an index whose number fields hold any JSON value, with the
  \<open>TypeError\<close> of a comparison as a result: \<open>Inl\<close> is the exception raised, \<open>Inr\<close> the
  value returned.
\<close>

fun find_segment_loop_raw ::
  "('s, pyval) SegmentAlignment list \<Rightarrow> pyfloat
   \<Rightarrow> py_error + ('s, pyval) SegmentAlignment option" where
  "find_segment_loop_raw [] time = Inr None"
| "find_segment_loop_raw (segment # rest) time =
     (case chained_le (SegmentAlignment.start_time segment) time
             (SegmentAlignment.end_time segment) of
        Inl e \<Rightarrow> Inl e
      | Inr True \<Rightarrow> Inr (Some segment)
      | Inr False \<Rightarrow> find_segment_loop_raw rest time)"

definition find_segment_at_time_raw ::
  "('s, pyval) Alignment \<Rightarrow> pyfloat \<Rightarrow> py_error + ('s, pyval) SegmentAlignment option" where
  "find_segment_at_time_raw self time = find_segment_loop_raw (segments self) time"

fun find_word_loop_raw ::
  "('s, pyval) WordAlignment list \<Rightarrow> pyfloat \<Rightarrow> py_error + ('s, pyval) WordAlignment option" where
  "find_word_loop_raw [] time = Inr None"
| "find_word_loop_raw (w # rest) time =
     (case chained_le (WordAlignment.start_time w) time (WordAlignment.end_time w) of
        Inl e \<Rightarrow> Inl e
      | Inr True \<Rightarrow> Inr (Some w)
      | Inr False \<Rightarrow> find_word_loop_raw rest time)"

definition find_word_at_time_raw ::
  "('s, pyval) Alignment \<Rightarrow> pyfloat \<Rightarrow> py_error + ('s, pyval) WordAlignment option" where
  "find_word_at_time_raw self time =
     (case find_segment_at_time_raw self time of
        Inl e \<Rightarrow> Inl e
      | Inr None \<Rightarrow> Inr None
      | Inr (Some segment) \<Rightarrow> find_word_loop_raw (words segment) time)"

fun segment_index_loop_raw ::
  "nat \<Rightarrow> ('s, pyval) SegmentAlignment list \<Rightarrow> pyfloat \<Rightarrow> py_error + nat option" where
  "segment_index_loop_raw i [] time = Inr None"
| "segment_index_loop_raw i (segment # rest) time =
     (case chained_le (SegmentAlignment.start_time segment) time
             (SegmentAlignment.end_time segment) of
        Inl e \<Rightarrow> Inl e
      | Inr True \<Rightarrow> Inr (Some i)
      | Inr False \<Rightarrow> segment_index_loop_raw (Suc i) rest time)"

definition get_segment_index_at_time_raw ::
  "('s, pyval) Alignment \<Rightarrow> pyfloat \<Rightarrow> py_error + nat option" where
  "get_segment_index_at_time_raw self time = segment_index_loop_raw 0 (segments self) time"

text \<open>An index with fields of the annotated types, as the Python object that it is.\<close>

definition raw_word :: "('s, pyfloat) WordAlignment \<Rightarrow> ('s, pyval) WordAlignment" where
  "raw_word w =
     \<lparr>word = word w, start_time = PyFloat (WordAlignment.start_time w),
      end_time = PyFloat (WordAlignment.end_time w), confidence = PyFloat (confidence w)\<rparr>"

definition raw_segment :: "('s, pyfloat) SegmentAlignment \<Rightarrow> ('s, pyval) SegmentAlignment" where
  "raw_segment s =
     \<lparr>segment_id = segment_id s, text = text s,
      start_time = PyFloat (SegmentAlignment.start_time s),
      end_time = PyFloat (SegmentAlignment.end_time s),
      words = map raw_word (words s)\<rparr>"

definition raw_alignment :: "('s, pyfloat) Alignment \<Rightarrow> ('s, pyval) Alignment" where
  "raw_alignment a =
     \<lparr>talk_id = talk_id a, language = language a, segments = map raw_segment (segments a)\<rparr>"

section \<open>The JSON loader (gls/infrastructure/storage/talk_storage.py)\<close>

text \<open>
  \<open>FileAlignmentRepository._parse_alignment\<close>. The word of the list comprehension:
  the keyword arguments are evaluated in the order written.
\<close>

definition parse_word :: "pyval \<Rightarrow> py_error + (pyval, pyval) WordAlignment" where
  "parse_word w =
     (case subscript w ''word'' of Inl e \<Rightarrow> Inl e | Inr wd \<Rightarrow>
     (case subscript w ''start_time'' of Inl e \<Rightarrow> Inl e | Inr st \<Rightarrow>
     (case subscript w ''end_time'' of Inl e \<Rightarrow> Inl e | Inr en \<Rightarrow>
     (case dict_get w ''confidence'' (PyFloat (Fin 1)) of Inl e \<Rightarrow> Inl e | Inr c \<Rightarrow>
        Inr \<lparr>word = wd, start_time = st, end_time = en, confidence = c\<rparr>))))"

text \<open>The list comprehension over the word entries; the first exception ends it.\<close>

fun parse_words :: "pyval list \<Rightarrow> py_error + (pyval, pyval) WordAlignment list" where
  "parse_words [] = Inr []"
| "parse_words (w # rest) =
     (case parse_word w of Inl e \<Rightarrow> Inl e | Inr x \<Rightarrow>
     (case parse_words rest of Inl e \<Rightarrow> Inl e | Inr xs \<Rightarrow> Inr (x # xs)))"

text \<open>The entries that the comprehension visits: \<open>seg_data.get("words", [])\<close>.\<close>

definition word_entries :: "pyval \<Rightarrow> py_error + pyval list" where
  "word_entries seg_data =
     (case dict_get seg_data ''words'' (PyList []) of Inl e \<Rightarrow> Inl e | Inr ws \<Rightarrow> iterate ws)"

text \<open>The body of the loop over segments: the words first, then the segment's fields.\<close>

definition parse_segment :: "pyval \<Rightarrow> py_error + (pyval, pyval) SegmentAlignment" where
  "parse_segment seg_data =
     (case word_entries seg_data of Inl e \<Rightarrow> Inl e | Inr entries \<Rightarrow>
     (case parse_words entries of Inl e \<Rightarrow> Inl e | Inr ws \<Rightarrow>
     (case subscript seg_data ''segment_id'' of Inl e \<Rightarrow> Inl e | Inr sid \<Rightarrow>
     (case subscript seg_data ''text'' of Inl e \<Rightarrow> Inl e | Inr tx \<Rightarrow>
     (case subscript seg_data ''start_time'' of Inl e \<Rightarrow> Inl e | Inr st \<Rightarrow>
     (case subscript seg_data ''end_time'' of Inl e \<Rightarrow> Inl e | Inr en \<Rightarrow>
        Inr \<lparr>segment_id = sid, text = tx, start_time = st, end_time = en, words = ws\<rparr>))))))"

text \<open>The loop \<open>for seg_data in ...: segments.append(...)\<close>.\<close>

fun parse_segments :: "pyval list \<Rightarrow> py_error + (pyval, pyval) SegmentAlignment list" where
  "parse_segments [] = Inr []"
| "parse_segments (seg_data # rest) =
     (case parse_segment seg_data of Inl e \<Rightarrow> Inl e | Inr x \<Rightarrow>
     (case parse_segments rest of Inl e \<Rightarrow> Inl e | Inr xs \<Rightarrow> Inr (x # xs)))"

text \<open>The entries that the loop visits: \<open>data.get("segments", [])\<close>.\<close>

definition segment_entries :: "pyval \<Rightarrow> py_error + pyval list" where
  "segment_entries data =
     (case dict_get data ''segments'' (PyList []) of Inl e \<Rightarrow> Inl e | Inr ss \<Rightarrow> iterate ss)"

definition parse_alignment ::
  "TalkId \<Rightarrow> Language \<Rightarrow> pyval \<Rightarrow> py_error + (pyval, pyval) Alignment" where
  "parse_alignment tid lang data =
     (case segment_entries data of Inl e \<Rightarrow> Inl e | Inr entries \<Rightarrow>
     (case parse_segments entries of Inl e \<Rightarrow> Inl e | Inr segs \<Rightarrow>
        Inr \<lparr>talk_id = tid, language = lang, segments = segs\<rparr>))"

section \<open>Vocabulary of the properties\<close>

text \<open>The closed interval of a segment, and of a word, contains the time.\<close>

definition segment_contains :: "('s, pyfloat) SegmentAlignment \<Rightarrow> pyfloat \<Rightarrow> bool" where
  "segment_contains s t \<longleftrightarrow>
     float_le (SegmentAlignment.start_time s) t \<and> float_le t (SegmentAlignment.end_time s)"

definition word_contains :: "('s, pyfloat) WordAlignment \<Rightarrow> pyfloat \<Rightarrow> bool" where
  "word_contains w t \<longleftrightarrow>
     float_le (WordAlignment.start_time w) t \<and> float_le t (WordAlignment.end_time w)"

text \<open>
  The index of the scenario of the specification. A decimal literal such as \<open>0.55\<close>
  stands for the double nearest to it; rounding to nearest is monotone and the literals
  compared below round to different doubles, so they compare as the decimals do.
\<close>

definition seg_000 :: "(string, pyfloat) SegmentAlignment" where
  "seg_000 =
     \<lparr>segment_id = ''seg-000'', text = ''Hello world'',
      start_time = Fin 0.0, end_time = Fin 2.5,
      words = [\<lparr>word = ''Hello'', start_time = Fin 0.0, end_time = Fin 0.5, confidence = Fin 0.99\<rparr>,
               \<lparr>word = ''world'', start_time = Fin 0.6, end_time = Fin 1.2, confidence = Fin 0.95\<rparr>]\<rparr>"

definition seg_001 :: "(string, pyfloat) SegmentAlignment" where
  "seg_001 =
     \<lparr>segment_id = ''seg-001'', text = ''Second segment'',
      start_time = Fin 2.5, end_time = Fin 5.0, words = []\<rparr>"

definition scenario :: "(string, pyfloat) Alignment" where
  "scenario =
     \<lparr>talk_id = \<lparr>value = ''test-talk''\<rparr>, language = ENGLISH, segments = [seg_000, seg_001]\<rparr>"

text \<open>
  A word entry (a dict) and the \<open>WordAlignment\<close> made from it: \<open>word\<close>, \<open>start_time\<close> and
  \<open>end_time\<close> are the entry's values, and \<open>confidence\<close> is the entry's value when the
  key is there and \<open>1.0\<close> when it is not.
\<close>

definition word_carried :: "(string \<times> pyval) list \<Rightarrow> (pyval, pyval) WordAlignment \<Rightarrow> bool" where
  "word_carried d r \<longleftrightarrow>
     map_of d ''word'' = Some (word r)
     \<and> map_of d ''start_time'' = Some (WordAlignment.start_time r)
     \<and> map_of d ''end_time'' = Some (WordAlignment.end_time r)
     \<and> confidence r = (case map_of d ''confidence'' of None \<Rightarrow> PyFloat (Fin 1) | Some c \<Rightarrow> c)"

text \<open>
  The same for an item of a \<open>"words"\<close> list, which has to be a dict; for a segment entry
  and the segment made from it, whose words are, one per item and in the same order, made
  from the items of the entry's \<open>"words"\<close> list (no words when the key is missing or its
  value is another kind of value); and for the input and the alignment made from it,
  likewise for the \<open>"segments"\<close> list. These follow the schema of the input, not the
  loader.
\<close>

definition entry_carried :: "pyval \<Rightarrow> (pyval, pyval) WordAlignment \<Rightarrow> bool" where
  "entry_carried w r \<longleftrightarrow> (case w of PyDict e \<Rightarrow> word_carried e r | _ \<Rightarrow> False)"

definition segment_words_carried :: "pyval \<Rightarrow> (pyval, pyval) SegmentAlignment \<Rightarrow> bool" where
  "segment_words_carried seg_data s \<longleftrightarrow>
     (case seg_data of
        PyDict f \<Rightarrow>
          (case map_of f ''words'' of
             None \<Rightarrow> words s = []
           | Some (PyList ws) \<Rightarrow> list_all2 entry_carried ws (words s)
           | Some other \<Rightarrow> words s = [])
      | _ \<Rightarrow> False)"

definition alignment_words_carried :: "pyval \<Rightarrow> (pyval, pyval) Alignment \<Rightarrow> bool" where
  "alignment_words_carried data a \<longleftrightarrow>
     (case data of
        PyDict f \<Rightarrow>
          (case map_of f ''segments'' of
             None \<Rightarrow> segments a = []
           | Some (PyList ss) \<Rightarrow> list_all2 segment_words_carried ss (segments a)
           | Some other \<Rightarrow> segments a = [])
      | _ \<Rightarrow> False)"

text \<open>An alignment file with a word that has a confidence and a word that has none.\<close>

definition hello_entry :: "(string \<times> pyval) list" where
  "hello_entry =
     [(''word'', PyStr ''Hello''), (''start_time'', PyFloat (Fin 0.0)),
      (''end_time'', PyFloat (Fin 0.5)), (''confidence'', PyFloat (Fin 0.99))]"

definition world_entry :: "(string \<times> pyval) list" where
  "world_entry =
     [(''word'', PyStr ''world''), (''start_time'', PyFloat (Fin 0.6)),
      (''end_time'', PyFloat (Fin 1.2))]"

definition alignment_file :: pyval where
  "alignment_file =
     PyDict [(''talk_id'', PyStr ''test-talk''), (''language'', PyStr ''eng''),
             (''segments'', PyList [PyDict
                [(''segment_id'', PyStr ''seg-000''), (''text'', PyStr ''Hello world''),
                 (''start_time'', PyFloat (Fin 0.0)), (''end_time'', PyFloat (Fin 2.5)),
                 (''words'', PyList [PyDict hello_entry, PyDict world_entry])]])]"

section \<open>The scenario\<close>

text \<open>
  C7. On the scenario index, \<open>find_segment_at_time(2.5)\<close> is seg-000,
  \<open>find_word_at_time(0.55)\<close> is not found, \<open>find_word_at_time(0.0)\<close> is the word
  "Hello", \<open>find_segment_at_time(6.0)\<close> is not found and
  \<open>get_segment_index_at_time(3.0)\<close> is 1.
\<close>

theorem scenario_queries:
  "find_segment_at_time scenario (Fin 2.5) = Some seg_000
   \<and> find_word_at_time scenario (Fin 0.55) = None
   \<and> find_word_at_time scenario (Fin 0.0)
       = Some \<lparr>word = ''Hello'', start_time = Fin 0.0, end_time = Fin 0.5, confidence = Fin 0.99\<rparr>
   \<and> find_segment_at_time scenario (Fin 6.0) = None
   \<and> get_segment_index_at_time scenario (Fin 3.0) = Some 1"
  by (simp add: find_segment_at_time_def find_word_at_time_def get_segment_index_at_time_def
      scenario_def seg_000_def seg_001_def)

section \<open>Properties of the comparison and of the loops\<close>

lemma float_le_refl_left: "float_le x y \<Longrightarrow> float_le x x"
  by (cases x; cases y) simp_all

lemma float_le_refl_right: "float_le x y \<Longrightarrow> float_le y y"
  by (cases x; cases y) simp_all

lemma float_le_trans: "float_le x y \<Longrightarrow> float_le y z \<Longrightarrow> float_le x z"
  by (cases x; cases y; cases z) simp_all

lemma float_gt_not_le: "float_gt x y \<Longrightarrow> \<not> float_le x y"
  by (cases x; cases y) simp_all

lemma find_segment_loop_find:
  "find_segment_loop xs t = List.find (\<lambda>s. segment_contains s t) xs"
  by (induction xs) (simp_all add: segment_contains_def)

lemma find_word_loop_find:
  "find_word_loop ws t = List.find (\<lambda>w. word_contains w t) ws"
  by (induction ws) (simp_all add: word_contains_def)

lemma find_segment_loop_None:
  "find_segment_loop xs t = None \<longleftrightarrow> (\<forall>s\<in>set xs. \<not> segment_contains s t)"
  by (auto simp: find_segment_loop_find find_None_iff)

lemma find_segment_loop_Some:
  "find_segment_loop xs t = Some s \<longleftrightarrow>
     (\<exists>k<length xs. xs ! k = s \<and> segment_contains s t \<and> (\<forall>m<k. \<not> segment_contains (xs ! m) t))"
  unfolding find_segment_loop_find find_Some_iff by blast

lemma find_word_loop_None:
  "find_word_loop ws t = None \<longleftrightarrow> (\<forall>w\<in>set ws. \<not> word_contains w t)"
  by (auto simp: find_word_loop_find find_None_iff)

lemma find_word_loop_Some:
  "find_word_loop ws t = Some w \<longleftrightarrow>
     (\<exists>k<length ws. ws ! k = w \<and> word_contains w t \<and> (\<forall>m<k. \<not> word_contains (ws ! m) t))"
  unfolding find_word_loop_find find_Some_iff by blast

lemma segment_index_loop_None:
  "segment_index_loop i xs t = None \<longleftrightarrow> find_segment_loop xs t = None"
  by (induction xs arbitrary: i) simp_all

lemma segment_index_loop_Some:
  "segment_index_loop i xs t = Some n \<Longrightarrow>
     i \<le> n \<and> n - i < length xs \<and> find_segment_loop xs t = Some (xs ! (n - i))"
proof (induction xs arbitrary: i)
  case Nil
  then show ?case by simp
next
  case (Cons x xs)
  show ?case
  proof (cases "float_le (SegmentAlignment.start_time x) t \<and> float_le t (SegmentAlignment.end_time x)")
    case True
    with Cons.prems show ?thesis by simp
  next
    case False
    with Cons.prems have "segment_index_loop (Suc i) xs t = Some n" by simp
    from Cons.IH [OF this] have h: "Suc i \<le> n" "n - Suc i < length xs"
      "find_segment_loop xs t = Some (xs ! (n - Suc i))" by simp_all
    from h(1) have "n - i = Suc (n - Suc i)" by simp
    from False have "find_segment_loop (x # xs) t = find_segment_loop xs t" by auto
    with h show ?thesis by simp
  qed
qed

lemma first_match:
  assumes "i < length xs" and "segment_contains (xs ! i) t"
  shows "\<exists>k\<le>i. find_segment_loop xs t = Some (xs ! k) \<and> segment_contains (xs ! k) t
           \<and> (\<forall>m<k. \<not> segment_contains (xs ! m) t)"
proof -
  from assms have "xs ! i \<in> set xs" by simp
  with assms(2) have "find_segment_loop xs t \<noteq> None"
    by (auto simp: find_segment_loop_None)
  then obtain s where s: "find_segment_loop xs t = Some s" by auto
  then obtain k where k: "k < length xs" "xs ! k = s" "segment_contains s t"
    "\<forall>m<k. \<not> segment_contains (xs ! m) t"
    unfolding find_segment_loop_Some by blast
  have "k \<le> i"
  proof (rule ccontr)
    assume "\<not> k \<le> i"
    then have "i < k" by simp
    with k(4) assms(2) show False by blast
  qed
  with s k show ?thesis by blast
qed

lemma first_match_here:
  assumes "i < length xs" and "segment_contains (xs ! i) t"
    and "\<forall>m<i. \<not> segment_contains (xs ! m) t"
  shows "find_segment_loop xs t = Some (xs ! i)"
  using assms unfolding find_segment_loop_Some by blast

section \<open>Interval boundaries\<close>

text \<open>
  C1 as stated (the queries at \<open>s.start_time\<close> and \<open>s.end_time\<close> both return \<open>s\<close>) fails
  on the scenario index: seg-001 is in the sequence and starts at 2.5, no later than its
  end 5.0, yet the query at 2.5 returns seg-000, whose interval ends at 2.5 and which
  comes first in the scan.
\<close>

theorem boundary_not_own_segment:
  "seg_001 \<in> set (segments scenario)
   \<and> float_le (SegmentAlignment.start_time seg_001) (SegmentAlignment.end_time seg_001)
   \<and> find_segment_at_time scenario (SegmentAlignment.start_time seg_001) \<noteq> Some seg_001"
  by (simp add: find_segment_at_time_def scenario_def seg_000_def seg_001_def)

text \<open>
  C1, amended. For a segment \<open>s\<close> at position \<open>k\<close> with \<open>s.start_time <= s.end_time\<close>
  and \<open>t\<close> one of its two boundary times, \<open>find_segment_at_time(t)\<close> is never not
  found: it returns the first segment in sequence order whose closed interval contains
  \<open>t\<close>, at a position no later than \<open>k\<close>, and that segment is \<open>s\<close> itself when no segment
  before position \<open>k\<close> contains \<open>t\<close>.
\<close>

theorem boundary_times_found:
  assumes "k < length (segments a)"
    and "float_le (SegmentAlignment.start_time (segments a ! k))
                  (SegmentAlignment.end_time (segments a ! k))"
    and "t = SegmentAlignment.start_time (segments a ! k)
         \<or> t = SegmentAlignment.end_time (segments a ! k)"
  shows "(\<exists>j\<le>k. find_segment_at_time a t = Some (segments a ! j)
            \<and> segment_contains (segments a ! j) t
            \<and> (\<forall>m<j. \<not> segment_contains (segments a ! m) t))
         \<and> ((\<forall>m<k. \<not> segment_contains (segments a ! m) t)
              \<longrightarrow> find_segment_at_time a t = Some (segments a ! k))"
proof -
  from assms(2,3) have c: "segment_contains (segments a ! k) t"
    unfolding segment_contains_def
    by (auto intro: float_le_refl_left float_le_refl_right)
  show ?thesis
    unfolding find_segment_at_time_def
    using first_match [OF assms(1) c] first_match_here [OF assms(1) c] by blast
qed

theorem boundary_times_found_witness:
  "(1::nat) < length (segments scenario)
   \<and> float_le (SegmentAlignment.start_time (segments scenario ! 1))
               (SegmentAlignment.end_time (segments scenario ! 1))
   \<and> find_segment_at_time scenario (SegmentAlignment.start_time (segments scenario ! 1))
       = Some (segments scenario ! 0)
   \<and> find_segment_at_time scenario (SegmentAlignment.end_time (segments scenario ! 1))
       = Some (segments scenario ! 1)"
proof -
  have k: "(1::nat) < length (segments scenario)" by (simp add: scenario_def)
  have le: "float_le (SegmentAlignment.start_time (segments scenario ! 1))
                     (SegmentAlignment.end_time (segments scenario ! 1))"
    by (simp add: scenario_def seg_001_def)
  have none: "\<forall>m<1. \<not> segment_contains (segments scenario ! m)
                 (SegmentAlignment.end_time (segments scenario ! 1))"
    by (simp add: scenario_def seg_000_def seg_001_def segment_contains_def)
  have e: "find_segment_at_time scenario (SegmentAlignment.end_time (segments scenario ! 1))
           = Some (segments scenario ! 1)"
    using boundary_times_found [OF k le, of "SegmentAlignment.end_time (segments scenario ! 1)"] none
    by blast
  have s: "find_segment_at_time scenario (SegmentAlignment.start_time (segments scenario ! 1))
           = Some (segments scenario ! 0)"
    by (simp add: find_segment_at_time_def scenario_def seg_000_def seg_001_def)
  from k le s e show ?thesis by blast
qed

section \<open>Overlapping segments\<close>

text \<open>
  C2. When the segments at positions \<open>i < j\<close> both contain \<open>t\<close>,
  \<open>find_segment_at_time(t)\<close> returns the earliest segment of the sequence that contains
  \<open>t\<close>: a segment at a position \<open>k \<le> i\<close> that contains \<open>t\<close> and has no segment containing
  \<open>t\<close> before it; it is the one at position \<open>i\<close> when none before \<open>i\<close> contains \<open>t\<close>.
\<close>

theorem first_match_wins:
  assumes "i < j" and "j < length (segments a)"
    and "segment_contains (segments a ! i) t"
    and "segment_contains (segments a ! j) t"
  shows "(\<exists>k\<le>i. find_segment_at_time a t = Some (segments a ! k)
            \<and> segment_contains (segments a ! k) t
            \<and> (\<forall>m<k. \<not> segment_contains (segments a ! m) t))
         \<and> ((\<forall>m<i. \<not> segment_contains (segments a ! m) t)
              \<longrightarrow> find_segment_at_time a t = Some (segments a ! i))"
proof -
  from assms(1,2) have i: "i < length (segments a)" by simp
  show ?thesis
    unfolding find_segment_at_time_def
    using first_match [OF i assms(3)] first_match_here [OF i assms(3)] by blast
qed

theorem first_match_wins_witness:
  "(0::nat) < 1 \<and> (1::nat) < length (segments scenario)
   \<and> segment_contains (segments scenario ! 0) (Fin 2.5)
   \<and> segment_contains (segments scenario ! 1) (Fin 2.5)
   \<and> find_segment_at_time scenario (Fin 2.5) = Some (segments scenario ! 0)"
proof -
  have a: "(0::nat) < 1" by simp
  have b: "(1::nat) < length (segments scenario)" by (simp add: scenario_def)
  have c: "segment_contains (segments scenario ! 0) (Fin 2.5)"
    by (simp add: scenario_def seg_000_def segment_contains_def)
  have d: "segment_contains (segments scenario ! 1) (Fin 2.5)"
    by (simp add: scenario_def seg_001_def segment_contains_def)
  from first_match_wins [OF a b c d]
  have "find_segment_at_time scenario (Fin 2.5) = Some (segments scenario ! 0)" by simp
  with a b c d show ?thesis by blast
qed

section \<open>Word lookup\<close>

text \<open>
  C3. \<open>find_word_at_time(t)\<close> is not found whenever \<open>find_segment_at_time(t)\<close> is; when
  a segment is matched, it is not found if no word of that segment contains \<open>t\<close>, and
  otherwise it is the first word of that segment's \<open>words\<close> whose closed interval
  contains \<open>t\<close>.
\<close>

theorem find_word_at_time_result:
  "(find_segment_at_time a t = None \<longrightarrow> find_word_at_time a t = None)
   \<and> (\<forall>seg. find_segment_at_time a t = Some seg \<longrightarrow>
        ((\<forall>w\<in>set (words seg). \<not> word_contains w t) \<longrightarrow> find_word_at_time a t = None)
        \<and> ((\<exists>w\<in>set (words seg). word_contains w t) \<longrightarrow>
             (\<exists>j<length (words seg). find_word_at_time a t = Some (words seg ! j)
                \<and> word_contains (words seg ! j) t
                \<and> (\<forall>m<j. \<not> word_contains (words seg ! m) t))))"
proof (intro conjI allI impI)
  assume "find_segment_at_time a t = None"
  then show "find_word_at_time a t = None" by (simp add: find_word_at_time_def)
next
  fix seg
  assume s: "find_segment_at_time a t = Some seg"
    and n: "\<forall>w\<in>set (words seg). \<not> word_contains w t"
  from s have "find_word_at_time a t = find_word_loop (words seg) t"
    by (simp add: find_word_at_time_def)
  with n show "find_word_at_time a t = None" by (simp add: find_word_loop_None)
next
  fix seg
  assume s: "find_segment_at_time a t = Some seg"
    and e: "\<exists>w\<in>set (words seg). word_contains w t"
  from s have eq: "find_word_at_time a t = find_word_loop (words seg) t"
    by (simp add: find_word_at_time_def)
  from e have "find_word_loop (words seg) t \<noteq> None" by (simp add: find_word_loop_None)
  then obtain w where w: "find_word_loop (words seg) t = Some w" by auto
  then obtain j where "j < length (words seg)" "words seg ! j = w" "word_contains w t"
    "\<forall>m<j. \<not> word_contains (words seg ! m) t"
    unfolding find_word_loop_Some by blast
  with w eq show "\<exists>j<length (words seg). find_word_at_time a t = Some (words seg ! j)
                \<and> word_contains (words seg ! j) t
                \<and> (\<forall>m<j. \<not> word_contains (words seg ! m) t)" by auto
qed

theorem find_word_at_time_result_witness:
  "find_segment_at_time scenario (Fin 6.0) = None
   \<and> find_word_at_time scenario (Fin 6.0) = None
   \<and> find_segment_at_time scenario (Fin 0.55) = Some seg_000
   \<and> find_word_at_time scenario (Fin 0.55) = None
   \<and> find_segment_at_time scenario (Fin 0.0) = Some seg_000
   \<and> find_word_at_time scenario (Fin 0.0) = Some (words seg_000 ! 0)"
proof -
  have s6: "find_segment_at_time scenario (Fin 6.0) = None"
    by (simp add: find_segment_at_time_def scenario_def seg_000_def seg_001_def)
  have w6: "find_word_at_time scenario (Fin 6.0) = None"
    using find_word_at_time_result [of scenario "Fin 6.0"] s6 by blast
  have s1: "find_segment_at_time scenario (Fin 0.55) = Some seg_000"
    by (simp add: find_segment_at_time_def scenario_def seg_000_def seg_001_def)
  have n1: "\<forall>w\<in>set (words seg_000). \<not> word_contains w (Fin 0.55)"
    by (simp add: seg_000_def word_contains_def)
  have w1: "find_word_at_time scenario (Fin 0.55) = None"
    using find_word_at_time_result [of scenario "Fin 0.55"] s1 n1 by blast
  have s0: "find_segment_at_time scenario (Fin 0.0) = Some seg_000"
    by (simp add: find_segment_at_time_def scenario_def seg_000_def seg_001_def)
  have c0: "word_contains (words seg_000 ! 0) (Fin 0.0)"
    by (simp add: seg_000_def word_contains_def)
  have "words seg_000 ! 0 \<in> set (words seg_000)" by (simp add: seg_000_def)
  with c0 have e0: "\<exists>w\<in>set (words seg_000). word_contains w (Fin 0.0)" by blast
  from find_word_at_time_result [of scenario "Fin 0.0"] s0 e0
  obtain j where j: "find_word_at_time scenario (Fin 0.0) = Some (words seg_000 ! j)"
    "\<forall>m<j. \<not> word_contains (words seg_000 ! m) (Fin 0.0)" by blast
  have "j = 0"
  proof (rule ccontr)
    assume "j \<noteq> 0"
    then have "0 < j" by simp
    with j(2) c0 show False by blast
  qed
  with j(1) have w0: "find_word_at_time scenario (Fin 0.0) = Some (words seg_000 ! 0)" by simp
  from s6 w6 s1 w1 s0 w0 show ?thesis by blast
qed

section \<open>Segment index\<close>

text \<open>
  C4. \<open>get_segment_index_at_time(t)\<close> is not found exactly when
  \<open>find_segment_at_time(t)\<close> is, and an index \<open>i\<close> it returns is a position of the
  sequence (zero-based, \<open>i < len(segments)\<close>) with \<open>segments[i]\<close> the segment that
  \<open>find_segment_at_time(t)\<close> returns.
\<close>

theorem segment_index_agrees:
  "(get_segment_index_at_time a t = None \<longleftrightarrow> find_segment_at_time a t = None)
   \<and> (\<forall>i. get_segment_index_at_time a t = Some i \<longrightarrow>
          i < length (segments a) \<and> find_segment_at_time a t = Some (segments a ! i))"
  unfolding get_segment_index_at_time_def find_segment_at_time_def
  using segment_index_loop_Some [of 0 "segments a" t]
  by (simp add: segment_index_loop_None)

theorem segment_index_agrees_witness:
  "get_segment_index_at_time scenario (Fin 3.0) = Some 1
   \<and> (1::nat) < length (segments scenario)
   \<and> find_segment_at_time scenario (Fin 3.0) = Some (segments scenario ! 1)
   \<and> get_segment_index_at_time scenario (Fin 6.0) = None
   \<and> find_segment_at_time scenario (Fin 6.0) = None"
proof -
  have i: "get_segment_index_at_time scenario (Fin 3.0) = Some 1"
    by (simp add: get_segment_index_at_time_def scenario_def seg_000_def seg_001_def)
  have n: "get_segment_index_at_time scenario (Fin 6.0) = None"
    by (simp add: get_segment_index_at_time_def scenario_def seg_000_def seg_001_def)
  from segment_index_agrees [of scenario "Fin 3.0"] i
  have a: "(1::nat) < length (segments scenario)
           \<and> find_segment_at_time scenario (Fin 3.0) = Some (segments scenario ! 1)" by blast
  from segment_index_agrees [of scenario "Fin 6.0"] n
  have b: "find_segment_at_time scenario (Fin 6.0) = None" by blast
  from i n a b show ?thesis by blast
qed

section \<open>Times outside every interval\<close>

text \<open>
  C6. When no segment's closed interval contains \<open>t\<close>, \<open>find_segment_at_time(t)\<close> is
  not found: in particular for an empty sequence, and when every segment lies wholly
  after \<open>t\<close> or wholly before it (\<open>t\<close> before the first segment, after the last, or in a
  gap between two segments).
\<close>

theorem no_match_not_found:
  "((\<forall>s\<in>set (segments a). \<not> segment_contains s t) \<longrightarrow> find_segment_at_time a t = None)
   \<and> (segments a = [] \<longrightarrow> find_segment_at_time a t = None)
   \<and> ((\<forall>s\<in>set (segments a). float_gt (SegmentAlignment.start_time s) t
                                \<or> float_gt t (SegmentAlignment.end_time s))
        \<longrightarrow> find_segment_at_time a t = None)"
proof (intro conjI impI)
  assume "\<forall>s\<in>set (segments a). \<not> segment_contains s t"
  then show "find_segment_at_time a t = None"
    by (simp add: find_segment_at_time_def find_segment_loop_None)
next
  assume "segments a = []"
  then show "find_segment_at_time a t = None" by (simp add: find_segment_at_time_def)
next
  assume h: "\<forall>s\<in>set (segments a). float_gt (SegmentAlignment.start_time s) t
                                \<or> float_gt t (SegmentAlignment.end_time s)"
  have "\<forall>s\<in>set (segments a). \<not> segment_contains s t"
  proof
    fix s assume "s \<in> set (segments a)"
    with h have "float_gt (SegmentAlignment.start_time s) t
                 \<or> float_gt t (SegmentAlignment.end_time s)" by blast
    then show "\<not> segment_contains s t"
      unfolding segment_contains_def by (auto dest: float_gt_not_le)
  qed
  then show "find_segment_at_time a t = None"
    by (simp add: find_segment_at_time_def find_segment_loop_None)
qed

theorem no_match_not_found_witness:
  "find_segment_at_time scenario (Fin 6.0) = None
   \<and> find_segment_at_time scenario (Fin (- 1)) = None
   \<and> find_segment_at_time (scenario\<lparr>segments := []\<rparr>) (Fin 1) = None"
proof -
  have h: "\<forall>s\<in>set (segments scenario). \<not> segment_contains s (Fin 6.0)"
    by (simp add: scenario_def seg_000_def seg_001_def segment_contains_def)
  have a: "find_segment_at_time scenario (Fin 6.0) = None"
    using no_match_not_found [of scenario "Fin 6.0"] h by blast
  have g: "\<forall>s\<in>set (segments scenario). float_gt (SegmentAlignment.start_time s) (Fin (- 1))
                                \<or> float_gt (Fin (- 1)) (SegmentAlignment.end_time s)"
    by (simp add: scenario_def seg_000_def seg_001_def)
  have b: "find_segment_at_time scenario (Fin (- 1)) = None"
    using no_match_not_found [of scenario "Fin (- 1)"] g by blast
  have e: "segments (scenario\<lparr>segments := []\<rparr>) = []" by simp
  have c: "find_segment_at_time (scenario\<lparr>segments := []\<rparr>) (Fin 1) = None"
    using no_match_not_found [of "scenario\<lparr>segments := []\<rparr>" "Fin 1"] e by blast
  from a b c show ?thesis by blast
qed

section \<open>What a query can return\<close>

text \<open>
  C10. A segment returned by \<open>find_segment_at_time(t)\<close>, the segment at an index returned
  by \<open>get_segment_index_at_time(t)\<close> and a word returned by \<open>find_word_at_time(t)\<close> all
  satisfy \<open>start_time <= t <= end_time\<close>; hence none of them has
  \<open>start_time > end_time\<close>: a segment or word with an empty interval is never returned.
\<close>

theorem results_contain_time:
  "(\<forall>s. find_segment_at_time a t = Some s \<longrightarrow>
       float_le (SegmentAlignment.start_time s) t \<and> float_le t (SegmentAlignment.end_time s)
       \<and> \<not> float_gt (SegmentAlignment.start_time s) (SegmentAlignment.end_time s))
   \<and> (\<forall>i. get_segment_index_at_time a t = Some i \<longrightarrow>
       i < length (segments a)
       \<and> float_le (SegmentAlignment.start_time (segments a ! i)) t
       \<and> float_le t (SegmentAlignment.end_time (segments a ! i))
       \<and> \<not> float_gt (SegmentAlignment.start_time (segments a ! i))
                      (SegmentAlignment.end_time (segments a ! i)))
   \<and> (\<forall>w. find_word_at_time a t = Some w \<longrightarrow>
       float_le (WordAlignment.start_time w) t \<and> float_le t (WordAlignment.end_time w)
       \<and> \<not> float_gt (WordAlignment.start_time w) (WordAlignment.end_time w))"
proof -
  have seg: "float_le (SegmentAlignment.start_time s) t \<and> float_le t (SegmentAlignment.end_time s)
       \<and> \<not> float_gt (SegmentAlignment.start_time s) (SegmentAlignment.end_time s)"
    if "find_segment_loop xs t = Some s" for s and xs :: "('a, pyfloat) SegmentAlignment list"
  proof -
    from that have c: "segment_contains s t" unfolding find_segment_loop_Some by blast
    then have "float_le (SegmentAlignment.start_time s) (SegmentAlignment.end_time s)"
      unfolding segment_contains_def by (blast intro: float_le_trans)
    with c show ?thesis
      unfolding segment_contains_def by (auto dest: float_gt_not_le)
  qed
  have wrd: "float_le (WordAlignment.start_time w) t \<and> float_le t (WordAlignment.end_time w)
       \<and> \<not> float_gt (WordAlignment.start_time w) (WordAlignment.end_time w)"
    if "find_word_loop ws t = Some w" for w and ws :: "('a, pyfloat) WordAlignment list"
  proof -
    from that have c: "word_contains w t" unfolding find_word_loop_Some by blast
    then have "float_le (WordAlignment.start_time w) (WordAlignment.end_time w)"
      unfolding word_contains_def by (blast intro: float_le_trans)
    with c show ?thesis
      unfolding word_contains_def by (auto dest: float_gt_not_le)
  qed
  show ?thesis
  proof (intro conjI allI impI)
    fix s assume "find_segment_at_time a t = Some s"
    then have "find_segment_loop (segments a) t = Some s" by (simp add: find_segment_at_time_def)
    from seg [OF this]
    show "float_le (SegmentAlignment.start_time s) t" "float_le t (SegmentAlignment.end_time s)"
      "\<not> float_gt (SegmentAlignment.start_time s) (SegmentAlignment.end_time s)" by simp_all
  next
    fix i assume "get_segment_index_at_time a t = Some i"
    then have "segment_index_loop 0 (segments a) t = Some i"
      by (simp add: get_segment_index_at_time_def)
    from segment_index_loop_Some [OF this]
    have i: "i < length (segments a)" "find_segment_loop (segments a) t = Some (segments a ! i)"
      by simp_all
    from i(1) show "i < length (segments a)" .
    from seg [OF i(2)]
    show "float_le (SegmentAlignment.start_time (segments a ! i)) t"
      "float_le t (SegmentAlignment.end_time (segments a ! i))"
      "\<not> float_gt (SegmentAlignment.start_time (segments a ! i))
                      (SegmentAlignment.end_time (segments a ! i))" by simp_all
  next
    fix w assume "find_word_at_time a t = Some w"
    then obtain s :: "('a, pyfloat) SegmentAlignment"
      where "find_word_loop (words s) t = Some w"
      by (auto simp: find_word_at_time_def split: option.splits)
    from wrd [OF this]
    show "float_le (WordAlignment.start_time w) t" "float_le t (WordAlignment.end_time w)"
      "\<not> float_gt (WordAlignment.start_time w) (WordAlignment.end_time w)" by simp_all
  qed
qed

theorem results_contain_time_witness:
  "find_segment_at_time scenario (Fin 3.0) = Some seg_001
   \<and> float_le (SegmentAlignment.start_time seg_001) (Fin 3.0)
   \<and> float_le (Fin 3.0) (SegmentAlignment.end_time seg_001)
   \<and> \<not> float_gt (SegmentAlignment.start_time seg_001) (SegmentAlignment.end_time seg_001)
   \<and> get_segment_index_at_time scenario (Fin 3.0) = Some 1
   \<and> float_le (SegmentAlignment.start_time (segments scenario ! 1)) (Fin 3.0)
   \<and> find_word_at_time scenario (Fin 0.0) = Some (words seg_000 ! 0)
   \<and> float_le (Fin 0.0) (WordAlignment.end_time (words seg_000 ! 0))"
proof -
  have s: "find_segment_at_time scenario (Fin 3.0) = Some seg_001"
    by (simp add: find_segment_at_time_def scenario_def seg_000_def seg_001_def)
  have i: "get_segment_index_at_time scenario (Fin 3.0) = Some 1"
    by (simp add: get_segment_index_at_time_def scenario_def seg_000_def seg_001_def)
  have w: "find_word_at_time scenario (Fin 0.0) = Some (words seg_000 ! 0)"
    by (simp add: find_word_at_time_def find_segment_at_time_def scenario_def seg_000_def
        seg_001_def)
  from results_contain_time [of scenario "Fin 3.0"] s i
  have a: "float_le (SegmentAlignment.start_time seg_001) (Fin 3.0)
   \<and> float_le (Fin 3.0) (SegmentAlignment.end_time seg_001)
   \<and> \<not> float_gt (SegmentAlignment.start_time seg_001) (SegmentAlignment.end_time seg_001)
   \<and> float_le (SegmentAlignment.start_time (segments scenario ! 1)) (Fin 3.0)" by blast
  from results_contain_time [of scenario "Fin 0.0"] w
  have b: "float_le (Fin 0.0) (WordAlignment.end_time (words seg_000 ! 0))" by blast
  from s i w a b show ?thesis by blast
qed

section \<open>The queries are reads\<close>

lemma find_segment_loop_st_run:
  "run_state (find_segment_loop_st xs t) a = (find_segment_loop xs t, a)"
  by (induction xs) simp_all

lemma find_word_loop_st_run:
  "run_state (find_word_loop_st ws t) a = (find_word_loop ws t, a)"
  by (induction ws) simp_all

lemma segment_index_loop_st_run:
  "run_state (segment_index_loop_st i xs t) a = (segment_index_loop i xs t, a)"
  by (induction xs arbitrary: i) simp_all

text \<open>
  C8. Running the body of any of the three query methods on an index returns the
  method's result and leaves the index as it was before the call: the receiver after
  the call, with its \<open>talk_id\<close>, its \<open>language\<close> and its whole \<open>segments\<close> sequence and
  their words, is the receiver before it.
\<close>

theorem queries_leave_index_unchanged:
  "run_state (find_segment_at_time_st t) a = (find_segment_at_time a t, a)
   \<and> run_state (find_word_at_time_st t) a = (find_word_at_time a t, a)
   \<and> run_state (get_segment_index_at_time_st t) a = (get_segment_index_at_time a t, a)
   \<and> snd (run_state (find_segment_at_time_st t) a) = a
   \<and> snd (run_state (find_word_at_time_st t) a) = a
   \<and> snd (run_state (get_segment_index_at_time_st t) a) = a"
proof -
  have s: "run_state (find_segment_at_time_st t) a = (find_segment_at_time a t, a)"
    by (simp add: find_segment_at_time_st_def find_segment_at_time_def
        find_segment_loop_st_run)
  have w: "run_state (find_word_at_time_st t) a = (find_word_at_time a t, a)"
    by (cases "find_segment_at_time a t")
      (simp_all add: find_word_at_time_st_def find_word_at_time_def s find_word_loop_st_run)
  have i: "run_state (get_segment_index_at_time_st t) a = (get_segment_index_at_time a t, a)"
    by (simp add: get_segment_index_at_time_st_def get_segment_index_at_time_def
        segment_index_loop_st_run)
  from s w i show ?thesis by simp
qed

section \<open>No exception on an index of floats\<close>

lemma chained_le_floats:
  "chained_le (PyFloat x) t (PyFloat y) = Inr (float_le x t \<and> float_le t y)"
  by (simp add: chained_le_def le_time_def time_le_def bool.case_eq_if)

lemma chained_le_raw_segment:
  "chained_le (SegmentAlignment.start_time (raw_segment s)) t
              (SegmentAlignment.end_time (raw_segment s))
   = Inr (float_le (SegmentAlignment.start_time s) t \<and> float_le t (SegmentAlignment.end_time s))"
  by (simp add: raw_segment_def chained_le_floats)

lemma chained_le_raw_word:
  "chained_le (WordAlignment.start_time (raw_word w)) t (WordAlignment.end_time (raw_word w))
   = Inr (float_le (WordAlignment.start_time w) t \<and> float_le t (WordAlignment.end_time w))"
  by (simp add: raw_word_def chained_le_floats)

lemma find_segment_loop_raw_typed:
  "find_segment_loop_raw (map raw_segment xs) t = Inr (map_option raw_segment (find_segment_loop xs t))"
  by (induction xs) (simp_all add: chained_le_raw_segment bool.case_eq_if)

lemma find_word_loop_raw_typed:
  "find_word_loop_raw (map raw_word ws) t = Inr (map_option raw_word (find_word_loop ws t))"
  by (induction ws) (simp_all add: chained_le_raw_word bool.case_eq_if)

lemma segment_index_loop_raw_typed:
  "segment_index_loop_raw i (map raw_segment xs) t = Inr (segment_index_loop i xs t)"
  by (induction xs arbitrary: i) (simp_all add: chained_le_raw_segment bool.case_eq_if)

text \<open>
  C5. On every index whose number fields are floats (malformed or not: no order, no
  disjointness and no non-emptiness is assumed) and for every float \<open>time\<close>, NaN, the
  infinities and negative times included, the three methods raise nothing: each returns
  (\<open>Inr\<close>) what the method on the annotated types computes, \<open>None\<close> when there is no
  match.
\<close>

theorem queries_never_raise:
  "find_segment_at_time_raw (raw_alignment a) t
     = Inr (map_option raw_segment (find_segment_at_time a t))
   \<and> find_word_at_time_raw (raw_alignment a) t
     = Inr (map_option raw_word (find_word_at_time a t))
   \<and> get_segment_index_at_time_raw (raw_alignment a) t
     = Inr (get_segment_index_at_time a t)"
proof -
  have s: "find_segment_at_time_raw (raw_alignment a) t
     = Inr (map_option raw_segment (find_segment_at_time a t))"
    by (simp add: find_segment_at_time_raw_def find_segment_at_time_def raw_alignment_def
        find_segment_loop_raw_typed)
  have w: "find_word_at_time_raw (raw_alignment a) t
     = Inr (map_option raw_word (find_word_at_time a t))"
  proof (cases "find_segment_at_time a t")
    case None
    with s show ?thesis by (simp add: find_word_at_time_raw_def find_word_at_time_def)
  next
    case (Some seg)
    have "words (raw_segment seg) = map raw_word (words seg)" by (simp add: raw_segment_def)
    with s Some show ?thesis
      by (simp add: find_word_at_time_raw_def find_word_at_time_def find_word_loop_raw_typed)
  qed
  have i: "get_segment_index_at_time_raw (raw_alignment a) t
     = Inr (get_segment_index_at_time a t)"
    by (simp add: get_segment_index_at_time_raw_def get_segment_index_at_time_def
        raw_alignment_def segment_index_loop_raw_typed)
  from s w i show ?thesis by blast
qed

text \<open>
  The exception branch is a real one: a segment whose \<open>start_time\<close> is a str makes the
  comparison raise.
\<close>

lemma raw_lookup_type_error:
  "find_segment_at_time_raw
     \<lparr>talk_id = \<lparr>value = ''t''\<rparr>, language = ENGLISH,
      segments = [\<lparr>segment_id = ''s'', text = ''x'', start_time = PyStr ''0.0'',
                   end_time = PyFloat (Fin 1), words = []\<rparr>]\<rparr> (Fin 0)
   = Inl TypeError"
  by (simp add: find_segment_at_time_raw_def chained_le_def le_time_def)

section \<open>Parsing word entries\<close>

lemma parse_word_not_dict:
  "(case w of PyDict e \<Rightarrow> False | _ \<Rightarrow> True) \<Longrightarrow> parse_word w = Inl TypeError"
  by (cases w) (simp_all add: parse_word_def)

lemma parse_word_Inr:
  assumes "parse_word w = Inr r"
  shows "entry_carried w r"
proof (cases w)
  case (PyDict d)
  with assms have "word_carried d r"
    by (auto simp: parse_word_def word_carried_def split: option.splits)
  with PyDict show ?thesis by (simp add: entry_carried_def)
qed (use assms in \<open>simp_all add: parse_word_def\<close>)

lemma parse_word_dict:
  assumes "map_of d ''word'' = Some x" and "map_of d ''start_time'' = Some s"
    and "map_of d ''end_time'' = Some e"
  shows "parse_word (PyDict d)
         = Inr \<lparr>word = x, start_time = s, end_time = e,
                confidence = (case map_of d ''confidence'' of
                                None \<Rightarrow> PyFloat (Fin 1) | Some c \<Rightarrow> c)\<rparr>"
  using assms by (simp add: parse_word_def)

lemma parse_words_Inr:
  "parse_words ws = Inr rs \<Longrightarrow> list_all2 entry_carried ws rs"
proof (induction ws arbitrary: rs)
  case Nil
  then show ?case by simp
next
  case (Cons w ws)
  from Cons.prems obtain x xs where x: "parse_word w = Inr x" "parse_words ws = Inr xs"
    "rs = x # xs"
    by (auto split: sum.splits)
  from x(1) have "entry_carried w x" by (rule parse_word_Inr)
  moreover from x(2) have "list_all2 entry_carried ws xs" by (rule Cons.IH)
  ultimately show ?case using x(3) by simp
qed

lemma parse_words_of_str:
  "parse_words (map (\<lambda>c. PyStr [c]) s) = Inr rs \<Longrightarrow> rs = []"
  by (cases s) (simp_all add: parse_word_def)

lemma parse_words_of_keys:
  "parse_words (map (\<lambda>kv. PyStr (fst kv)) d) = Inr rs \<Longrightarrow> rs = []"
  by (cases d) (simp_all add: parse_word_def)

lemma parse_segment_Inr:
  assumes "parse_segment seg_data = Inr s"
  shows "segment_words_carried seg_data s"
proof -
  from assms obtain entries where
    en: "word_entries seg_data = Inr entries" "parse_words entries = Inr (words s)"
    by (auto simp: parse_segment_def split: sum.splits)
  show ?thesis
  proof (cases seg_data)
    case (PyDict f)
    show ?thesis
    proof (cases "map_of f ''words''")
      case None
      with PyDict en show ?thesis
        by (simp add: word_entries_def segment_words_carried_def)
    next
      case (Some v)
      with PyDict en(1) have it: "iterate v = Inr entries" by (simp add: word_entries_def)
      show ?thesis
      proof (cases v)
        case (PyList ws)
        with it have "entries = ws" by simp
        with en(2) have "list_all2 entry_carried ws (words s)" by (simp add: parse_words_Inr)
        with PyDict Some PyList show ?thesis by (simp add: segment_words_carried_def)
      next
        case (PyStr str)
        with it en(2) have "words s = []" by (auto dest: parse_words_of_str)
        with PyDict Some PyStr show ?thesis by (simp add: segment_words_carried_def)
      next
        case (PyDict keys)
        with it en(2) have "words s = []" by (auto dest: parse_words_of_keys)
        with \<open>seg_data = PyDict f\<close> Some PyDict show ?thesis
          by (simp add: segment_words_carried_def)
      qed (use it in simp_all)
    qed
  qed (use en(1) in \<open>simp_all add: word_entries_def\<close>)
qed

lemma parse_segments_Inr:
  "parse_segments ss = Inr rs \<Longrightarrow> list_all2 segment_words_carried ss rs"
proof (induction ss arbitrary: rs)
  case Nil
  then show ?case by simp
next
  case (Cons sd ss)
  from Cons.prems obtain x xs where x: "parse_segment sd = Inr x" "parse_segments ss = Inr xs"
    "rs = x # xs"
    by (auto split: sum.splits)
  from x(1) have "segment_words_carried sd x" by (rule parse_segment_Inr)
  moreover from x(2) have "list_all2 segment_words_carried ss xs" by (rule Cons.IH)
  ultimately show ?case using x(3) by simp
qed

lemma parse_segments_of_str:
  "parse_segments (map (\<lambda>c. PyStr [c]) s) = Inr rs \<Longrightarrow> rs = []"
  by (cases s) (simp_all add: parse_segment_def word_entries_def)

lemma parse_segments_of_keys:
  "parse_segments (map (\<lambda>kv. PyStr (fst kv)) d) = Inr rs \<Longrightarrow> rs = []"
  by (cases d) (simp_all add: parse_segment_def word_entries_def)

text \<open>
  C9. A word entry that has the keys \<open>word\<close>, \<open>start_time\<close> and \<open>end_time\<close> is parsed
  into a \<open>WordAlignment\<close> that carries these three values as they are, with the entry's
  \<open>confidence\<close> when the key is present and exactly \<open>1.0\<close> when it is missing. And when
  \<open>_parse_alignment\<close> returns an alignment for the input \<open>data\<close>, then \<open>data\<close> is a dict,
  the alignment has one segment for each item of the input's \<open>"segments"\<close> list, in the
  same order, and each segment has one word for each item of its entry's \<open>"words"\<close>
  list, in the same order, every word made from the entry at its position in this way.
\<close>

theorem parsed_words_carry_fields:
  "(map_of d ''word'' \<noteq> None \<and> map_of d ''start_time'' \<noteq> None \<and> map_of d ''end_time'' \<noteq> None
      \<longrightarrow> (\<exists>r. parse_word (PyDict d) = Inr r \<and> word_carried d r))
   \<and> (parse_alignment tid lang data = Inr a \<longrightarrow> alignment_words_carried data a)"
proof (intro conjI impI)
  assume "map_of d ''word'' \<noteq> None \<and> map_of d ''start_time'' \<noteq> None
          \<and> map_of d ''end_time'' \<noteq> None"
  then obtain x s e where k: "map_of d ''word'' = Some x" "map_of d ''start_time'' = Some s"
    "map_of d ''end_time'' = Some e" by auto
  from parse_word_dict [OF k] obtain r where r: "parse_word (PyDict d) = Inr r" by blast
  from parse_word_Inr [OF r] have "word_carried d r" by (simp add: entry_carried_def)
  with r show "\<exists>r. parse_word (PyDict d) = Inr r \<and> word_carried d r" by blast
next
  assume p: "parse_alignment tid lang data = Inr a"
  then obtain entries where en: "segment_entries data = Inr entries"
    "parse_segments entries = Inr (segments a)"
    by (auto simp: parse_alignment_def split: sum.splits)
  show "alignment_words_carried data a"
  proof (cases data)
    case (PyDict f)
    show ?thesis
    proof (cases "map_of f ''segments''")
      case None
      with PyDict en show ?thesis
        by (simp add: segment_entries_def alignment_words_carried_def)
    next
      case (Some v)
      with PyDict en(1) have it: "iterate v = Inr entries" by (simp add: segment_entries_def)
      show ?thesis
      proof (cases v)
        case (PyList ss)
        with it have "entries = ss" by simp
        with en(2) have "list_all2 segment_words_carried ss (segments a)"
          by (simp add: parse_segments_Inr)
        with PyDict Some PyList show ?thesis by (simp add: alignment_words_carried_def)
      next
        case (PyStr str)
        with it en(2) have "segments a = []" by (auto dest: parse_segments_of_str)
        with PyDict Some PyStr show ?thesis by (simp add: alignment_words_carried_def)
      next
        case (PyDict keys)
        with it en(2) have "segments a = []" by (auto dest: parse_segments_of_keys)
        with \<open>data = PyDict f\<close> Some PyDict show ?thesis
          by (simp add: alignment_words_carried_def)
      qed (use it in simp_all)
    qed
  qed (use en(1) in \<open>simp_all add: segment_entries_def\<close>)
qed

text \<open>The alignment file of the example, parsed.\<close>

lemma alignment_file_parsed:
  "parse_alignment \<lparr>value = ''test-talk''\<rparr> ENGLISH alignment_file =
     Inr \<lparr>talk_id = \<lparr>value = ''test-talk''\<rparr>, language = ENGLISH,
          segments = [\<lparr>segment_id = PyStr ''seg-000'', text = PyStr ''Hello world'',
                       start_time = PyFloat (Fin 0.0), end_time = PyFloat (Fin 2.5),
                       words = [\<lparr>word = PyStr ''Hello'', start_time = PyFloat (Fin 0.0),
                                 end_time = PyFloat (Fin 0.5), confidence = PyFloat (Fin 0.99)\<rparr>,
                                \<lparr>word = PyStr ''world'', start_time = PyFloat (Fin 0.6),
                                 end_time = PyFloat (Fin 1.2), confidence = PyFloat (Fin 1)\<rparr>]\<rparr>]\<rparr>"
  by (simp add: parse_alignment_def segment_entries_def alignment_file_def parse_segment_def
      word_entries_def parse_word_def hello_entry_def world_entry_def)

theorem parsed_words_carry_fields_witness:
  "map_of world_entry ''confidence'' = None
   \<and> (\<exists>r. parse_word (PyDict world_entry) = Inr r
          \<and> word r = PyStr ''world''
          \<and> WordAlignment.start_time r = PyFloat (Fin 0.6)
          \<and> WordAlignment.end_time r = PyFloat (Fin 1.2)
          \<and> confidence r = PyFloat (Fin 1))
   \<and> map_of hello_entry ''confidence'' = Some (PyFloat (Fin 0.99))
   \<and> (\<exists>r. parse_word (PyDict hello_entry) = Inr r \<and> confidence r = PyFloat (Fin 0.99))
   \<and> (\<exists>a. parse_alignment \<lparr>value = ''test-talk''\<rparr> ENGLISH alignment_file = Inr a
          \<and> alignment_words_carried alignment_file a
          \<and> length (segments a) = 1
          \<and> length (words (segments a ! 0)) = 2
          \<and> word (words (segments a ! 0) ! 0) = PyStr ''Hello''
          \<and> confidence (words (segments a ! 0) ! 0) = PyFloat (Fin 0.99)
          \<and> word (words (segments a ! 0) ! 1) = PyStr ''world''
          \<and> confidence (words (segments a ! 0) ! 1) = PyFloat (Fin 1))"
proof -
  have wc: "map_of world_entry ''confidence'' = None" by (simp add: world_entry_def)
  have wk: "map_of world_entry ''word'' \<noteq> None \<and> map_of world_entry ''start_time'' \<noteq> None
            \<and> map_of world_entry ''end_time'' \<noteq> None" by (simp add: world_entry_def)
  from parsed_words_carry_fields [of world_entry] wk
  obtain r where r: "parse_word (PyDict world_entry) = Inr r" "word_carried world_entry r"
    by blast
  from r(2) have rf: "word r = PyStr ''world'' \<and> WordAlignment.start_time r = PyFloat (Fin 0.6)
          \<and> WordAlignment.end_time r = PyFloat (Fin 1.2) \<and> confidence r = PyFloat (Fin 1)"
    by (simp add: word_carried_def world_entry_def)
  have hc: "map_of hello_entry ''confidence'' = Some (PyFloat (Fin 0.99))"
    by (simp add: hello_entry_def)
  have hk: "map_of hello_entry ''word'' \<noteq> None \<and> map_of hello_entry ''start_time'' \<noteq> None
            \<and> map_of hello_entry ''end_time'' \<noteq> None" by (simp add: hello_entry_def)
  from parsed_words_carry_fields [of hello_entry] hk
  obtain q where q: "parse_word (PyDict hello_entry) = Inr q" "word_carried hello_entry q"
    by blast
  from q(2) have qf: "confidence q = PyFloat (Fin 0.99)"
    by (simp add: word_carried_def hello_entry_def)
  from alignment_file_parsed obtain a where
    a: "parse_alignment \<lparr>value = ''test-talk''\<rparr> ENGLISH alignment_file = Inr a" by blast
  from parsed_words_carry_fields [of world_entry "\<lparr>value = ''test-talk''\<rparr>" ENGLISH
      alignment_file a] a
  have carried: "alignment_words_carried alignment_file a" by blast
  then obtain s where s: "segments a = [s]" "segment_words_carried
      (PyDict [(''segment_id'', PyStr ''seg-000''), (''text'', PyStr ''Hello world''),
               (''start_time'', PyFloat (Fin 0.0)), (''end_time'', PyFloat (Fin 2.5)),
               (''words'', PyList [PyDict hello_entry, PyDict world_entry])]) s"
    by (auto simp: alignment_words_carried_def alignment_file_def list_all2_Cons1)
  from s(2) obtain w0 w1 where w: "words s = [w0, w1]" "word_carried hello_entry w0"
    "word_carried world_entry w1"
    by (auto simp: segment_words_carried_def entry_carried_def list_all2_Cons1)
  from w(2) have f0: "word w0 = PyStr ''Hello'' \<and> confidence w0 = PyFloat (Fin 0.99)"
    by (simp add: word_carried_def hello_entry_def)
  from w(3) have f1: "word w1 = PyStr ''world'' \<and> confidence w1 = PyFloat (Fin 1)"
    by (simp add: word_carried_def world_entry_def)
  from s(1) w(1) f0 f1 have fa: "length (segments a) = 1
          \<and> length (words (segments a ! 0)) = 2
          \<and> word (words (segments a ! 0) ! 0) = PyStr ''Hello''
          \<and> confidence (words (segments a ! 0) ! 0) = PyFloat (Fin 0.99)
          \<and> word (words (segments a ! 0) ! 1) = PyStr ''world''
          \<and> confidence (words (segments a ! 0) ! 1) = PyFloat (Fin 1)" by simp
  from wc r(1) rf hc q(1) qf a carried fa show ?thesis by blast
qed

end
